theory Spec2Isabelle
  imports Main
begin

section \<open>Shared vocabulary of the scheduled jobs (index.js)\<close>

text \<open>
  Times are milliseconds since the epoch, as JavaScript's \<^verbatim>\<open>new Date()\<close> coerced to a
  number. An error thrown or rejected is a value; the only distinction the jobs make is
  \<^verbatim>\<open>err instanceof NintendoAPIError\<close>.
\<close>

datatype error = NintendoAPIError string | OtherError string

fun is_NintendoAPIError :: "error \<Rightarrow> bool" where
  "is_NintendoAPIError (NintendoAPIError m) = True"
| "is_NintendoAPIError (OtherError m) = False"

text \<open>
  One constructor for each console call of index.js; the arguments are the values the
  template literal interpolates (a time stands for the \<^verbatim>\<open>moment().format(...)\<close> taken then).
\<close>

datatype log_line =
    CronCompleted int
  | ErrorObject error
  | DailyUnfetched nat
  | DailyFetching string int
  | DailyDone
  | DailyCompleted int
  | XRankingFetched int int
  | XRankingFailed int int

datatype console = ConsoleLog log_line | ConsoleError log_line

section \<open>The daily job\<close>

record splatfest =
  region :: string
  splatfest_id :: int

datatype call =
    FetchSplatfestSchedules
  | QueryUnfetchedSplatfests
  | FetchSplatfestRanking string int
  | Wait nat

text \<open>
  What an async function leaves behind: an awaited call with the time it was started, the
  time it settled and the error it was rejected with (\<open>None\<close> when it was fulfilled), or a
  console line.
\<close>

datatype event = Awaited call int int "error option" | Console console

text \<open>
  The collaborators of the daily job live in cron-job.js, query.js and config.js. Each
  asynchronous one is a function of the time it is started at, giving how long it takes
  and how it settles; every call settles. \<open>timer_lateness\<close> is how much later than asked a
  timer started at a given time fires.
\<close>

record daily_env =
  DO_NOT_FETCH_SPLATFEST :: bool
  fetchSplatfestSchedules :: "int \<Rightarrow> nat \<times> (error + unit)"
  queryUnfetchedSplatfests :: "int \<Rightarrow> nat \<times> (error + splatfest list)"
  fetchSplatfestRanking :: "string \<Rightarrow> int \<Rightarrow> int \<Rightarrow> nat \<times> (error + unit)"
  timer_lateness :: "int \<Rightarrow> nat"

text \<open>
  The body of an async function, run from a start time: the events in order, the time it
  ends at, and the value it returns or the error it rejects with.
\<close>

type_synonym 'a async = "int \<Rightarrow> event list \<times> int \<times> (error + 'a)"

definition return_async :: "'a \<Rightarrow> 'a async" where
  "return_async v t = ([], t, Inr v)"

text \<open>Sequencing of two awaits: a rejection ends the function there.\<close>

definition bind_async :: "'a async \<Rightarrow> ('a \<Rightarrow> 'b async) \<Rightarrow> 'b async" where
  "bind_async m k t =
     (case m t of
        (evs, t1, Inl e) \<Rightarrow> (evs, t1, Inl e)
      | (evs, t1, Inr v) \<Rightarrow> (case k v t1 of (evs2, t2, r) \<Rightarrow> (evs @ evs2, t2, r)))"

definition await :: "call \<Rightarrow> (int \<Rightarrow> nat \<times> (error + 'a)) \<Rightarrow> 'a async" where
  "await c f t =
     (case f t of (d, r) \<Rightarrow>
        ([Awaited c t (t + int d) (case r of Inl e \<Rightarrow> Some e | Inr v \<Rightarrow> None)], t + int d, r))"

definition console_log :: "log_line \<Rightarrow> unit async" where
  "console_log l t = ([Console (ConsoleLog l)], t, Inr ())"

text \<open>
  Modelled from the spec: \<^verbatim>\<open>wait\<close> of util.js, which is not among the sources. The spec
  calls it "a fixed minimum delay": the promise is fulfilled no earlier than the given
  number of milliseconds after the call, later by whatever the timer adds.
\<close>

definition wait :: "daily_env \<Rightarrow> nat \<Rightarrow> unit async" where
  "wait env ms = await (Wait ms) (\<lambda>t. (ms + timer_lateness env t, Inr ()))"

text \<open>The \<^verbatim>\<open>for ... of\<close> loop of the daily job (index.js, lines 57 to 62).\<close>

fun drain :: "daily_env \<Rightarrow> splatfest list \<Rightarrow> unit async" where
  "drain env [] = return_async ()"
| "drain env (s # rest) =
     bind_async (console_log (DailyFetching (region s) (splatfest_id s))) (\<lambda>_.
     bind_async (await (FetchSplatfestRanking (region s) (splatfest_id s))
                   (fetchSplatfestRanking env (region s) (splatfest_id s))) (\<lambda>_.
     bind_async (console_log DailyDone) (\<lambda>_.
     bind_async (wait env 60000) (\<lambda>_.
     drain env rest))))"

text \<open>The callback of the daily CronJob (index.js, lines 42 to 67).\<close>

definition daily_job :: "daily_env \<Rightarrow> unit async" where
  "daily_job env =
     (if DO_NOT_FETCH_SPLATFEST env then return_async ()
      else
        bind_async (await FetchSplatfestSchedules (fetchSplatfestSchedules env)) (\<lambda>_.
        bind_async (await QueryUnfetchedSplatfests (queryUnfetchedSplatfests env))
          (\<lambda>unfetchedSplatfests.
        bind_async
          (if length unfetchedSplatfests \<noteq> 0 then
             bind_async (console_log (DailyUnfetched (length unfetchedSplatfests))) (\<lambda>_.
             drain env unfetchedSplatfests)
           else return_async ()) (\<lambda>_.
        (\<lambda>t. console_log (DailyCompleted t) t)))))"

subsection \<open>Reading a run of the daily job\<close>

fun awaits :: "event list \<Rightarrow> (call \<times> int \<times> int \<times> error option) list" where
  "awaits [] = []"
| "awaits (Awaited c s s' r # evs) = (c, s, s', r) # awaits evs"
| "awaits (Console l # evs) = awaits evs"

text \<open>The ranking fetches of a run, in order: the item, start, settling time, rejection.\<close>

fun ranking_fetches :: "event list \<Rightarrow> (splatfest \<times> int \<times> int \<times> error option) list" where
  "ranking_fetches [] = []"
| "ranking_fetches (Awaited (FetchSplatfestRanking rg i) s s' r # evs) =
     (\<lparr>region = rg, splatfest_id = i\<rparr>, s, s', r) # ranking_fetches evs"
| "ranking_fetches (ev # evs) = ranking_fetches evs"

definition attempted :: "event list \<Rightarrow> splatfest list" where
  "attempted evs = map fst (ranking_fetches evs)"

definition fetch_results :: "event list \<Rightarrow> error option list" where
  "fetch_results evs = map (\<lambda>(x, s, s', r). r) (ranking_fetches evs)"

definition fetch_spans :: "event list \<Rightarrow> (int \<times> int) list" where
  "fetch_spans evs = map (\<lambda>(x, s, s', r). (s, s')) (ranking_fetches evs)"

text \<open>The errors that reached the console, at either level.\<close>

fun logged_errors :: "event list \<Rightarrow> error list" where
  "logged_errors [] = []"
| "logged_errors (Console (ConsoleLog (ErrorObject e)) # evs) = e # logged_errors evs"
| "logged_errors (Console (ConsoleError (ErrorObject e)) # evs) = e # logged_errors evs"
| "logged_errors (ev # evs) = logged_errors evs"


text \<open>
  A fetch span is the pair of the start and settling time of one ranking fetch. The spans
  are paced from \<open>lo\<close> when the first starts no earlier than \<open>lo\<close>, each settles after it
  starts, and each next one starts at least 60000 ms after the previous one settled.
\<close>

fun paced :: "int \<Rightarrow> (int \<times> int) list \<Rightarrow> bool" where
  "paced lo [] = True"
| "paced lo ((s, s') # sp) = (lo \<le> s \<and> s \<le> s' \<and> paced (s' + 60000) sp)"

subsection \<open>Concrete backlogs\<close>

definition backlog3 :: "splatfest list" where
  "backlog3 =
     [\<lparr>region = ''jp'', splatfest_id = 1\<rparr>,
      \<lparr>region = ''na'', splatfest_id = 2\<rparr>,
      \<lparr>region = ''eu'', splatfest_id = 3\<rparr>]"

text \<open>Every collaborator succeeds.\<close>

definition env_ok :: daily_env where
  "env_ok =
     \<lparr>DO_NOT_FETCH_SPLATFEST = False,
      fetchSplatfestSchedules = (\<lambda>t. (500, Inr ())),
      queryUnfetchedSplatfests = (\<lambda>t. (20, Inr backlog3)),
      fetchSplatfestRanking = (\<lambda>rg i t. (1500, Inr ())),
      timer_lateness = (\<lambda>t. 4)\<rparr>"

text \<open>The fetch of the second item is rejected with an expected remote error.\<close>

definition env_second_fails :: daily_env where
  "env_second_fails =
     env_ok\<lparr>fetchSplatfestRanking :=
       (\<lambda>rg i t. if i = 2 then (300, Inl (NintendoAPIError ''not found'')) else (1500, Inr ()))\<rparr>"

section \<open>Promises\<close>

text \<open>
  A promise is the time it settles at and the value it is fulfilled with or the error it
  is rejected with. A collaborator started at a time gives its promise.
\<close>

type_synonym 'a promise = "int \<times> (error + 'a)"

definition start :: "(int \<Rightarrow> nat \<times> (error + 'a)) \<Rightarrow> int \<Rightarrow> 'a promise" where
  "start f t = (case f t of (d, r) \<Rightarrow> (t + int d, r))"

definition rejection :: "'a promise \<Rightarrow> error option" where
  "rejection p = (case snd p of Inl e \<Rightarrow> Some e | Inr v \<Rightarrow> None)"

text \<open>The rejections among the promises, in the order of the array.\<close>

fun rejections :: "'a promise list \<Rightarrow> (int \<times> error) list" where
  "rejections [] = []"
| "rejections ((t, Inr v) # ps) = rejections ps"
| "rejections ((t, Inl e) # ps) = (t, e) # rejections ps"

text \<open>Those of the rejections that no other one precedes in time.\<close>

definition earliest :: "(int \<times> error) list \<Rightarrow> (int \<times> error) list" where
  "earliest rs = filter (\<lambda>(t, e). list_all (\<lambda>(t', e'). t \<le> t') rs) rs"

fun fulfilled_values :: "'a promise list \<Rightarrow> 'a list" where
  "fulfilled_values [] = []"
| "fulfilled_values ((t, Inr v) # ps) = v # fulfilled_values ps"
| "fulfilled_values ((t, Inl e) # ps) = fulfilled_values ps"

text \<open>
  \<^verbatim>\<open>Promise.all\<close>, called at \<open>now\<close>: rejected as soon as one of the promises is, with that
  error; otherwise fulfilled with all the values, in the order of the array, once the last
  promise is fulfilled. Times are whole milliseconds, and when several rejections settle
  in the same earliest millisecond the clock does not tell which callback ran first:
  \<open>ran_first\<close> does, as an index into those rejections (taken modulo their number).
\<close>

definition Promise_all :: "nat \<Rightarrow> int \<Rightarrow> 'a promise list \<Rightarrow> 'a list promise" where
  "Promise_all ran_first now ps =
     (case earliest (rejections ps) of
        [] \<Rightarrow> (foldr max (map fst ps) now, Inr (fulfilled_values ps))
      | r # rs \<Rightarrow>
          (case (r # rs) ! (ran_first mod length (r # rs)) of (t, e) \<Rightarrow> (t, Inl e)))"

section \<open>The periodic job\<close>

text \<open>
  The collaborators of the periodic job: \<^verbatim>\<open>calculateLeagueDate\<close> of util.js and the three
  asynchronous functions of cron-job.js. \<open>'r\<close> is what a league ranking fetch is fulfilled
  with. The last two fields say, for the two \<^verbatim>\<open>Promise.all\<close> of the job, which rejection
  ran first among those of the same millisecond.
\<close>

record 'r periodic_env =
  calculateLeagueDate :: "int \<Rightarrow> string"
  fetchStageRotations :: "int \<Rightarrow> nat \<times> (error + unit)"
  fetchLeagueRanking :: "string \<Rightarrow> int \<Rightarrow> nat \<times> (error + 'r)"
  tweetLeagueUpdates :: "'r list \<Rightarrow> int \<Rightarrow> nat \<times> (error + unit)"
  tasks_ran_first :: nat
  families_ran_first :: nat

datatype 'r periodic_call =
    FetchStageRotations
  | FetchLeagueRanking string
  | TweetLeagueUpdates "'r list"

text \<open>A call that was issued: the call, its start, its settling time and its rejection.\<close>

type_synonym 'r issued = "'r periodic_call \<times> int \<times> int \<times> error option"

definition issue :: "'r periodic_call \<Rightarrow> int \<Rightarrow> 'a promise \<Rightarrow> 'r issued" where
  "issue c t p = (c, t, fst p, rejection p)"

subsection \<open>Promises with the calls behind them\<close>

text \<open>
  To tell which collaborators an expression calls, a promise is paired with the calls
  that were issued to obtain it, in the order they were issued. Calling a collaborator
  is the only thing that adds a call.
\<close>

type_synonym ('r, 'a) traced = "'r issued list \<times> 'a promise"

definition invoke ::
  "'r periodic_call \<Rightarrow> (int \<Rightarrow> nat \<times> (error + 'a)) \<Rightarrow> int \<Rightarrow> ('r, 'a) traced" where
  "invoke c f t = ([issue c t (start f t)], start f t)"

text \<open>\<^verbatim>\<open>Promise.all\<close> over expressions that have been evaluated, left to right.\<close>

definition traced_all :: "nat \<Rightarrow> int \<Rightarrow> ('r, 'a) traced list \<Rightarrow> ('r, 'a list) traced" where
  "traced_all ran_first now tps =
     (concat (map fst tps), Promise_all ran_first now (map snd tps))"

text \<open>
  \<^verbatim>\<open>p.then(f)\<close> with an asynchronous \<open>f\<close>: \<open>f\<close> is called with the value, at the time \<open>p\<close>
  is fulfilled, and the result settles as the promise of \<open>f\<close> does; a rejection of \<open>p\<close>
  passes through and \<open>f\<close> is never called.
\<close>

definition traced_then ::
  "('r, 'a) traced \<Rightarrow> ('a \<Rightarrow> int \<Rightarrow> ('r, 'b) traced) \<Rightarrow> ('r, 'b) traced" where
  "traced_then tp f =
     (case tp of
        (cs, t, Inl e) \<Rightarrow> (cs, t, Inl e)
      | (cs, t, Inr v) \<Rightarrow> (case f v t of (cs', q) \<Rightarrow> (cs @ cs', q)))"

text \<open>The three collaborators as index.js calls them: the call carries its argument.\<close>

definition call_fetchStageRotations :: "'r periodic_env \<Rightarrow> int \<Rightarrow> ('r, unit) traced" where
  "call_fetchStageRotations env = invoke FetchStageRotations (fetchStageRotations env)"

definition call_fetchLeagueRanking :: "'r periodic_env \<Rightarrow> string \<Rightarrow> int \<Rightarrow> ('r, 'r) traced" where
  "call_fetchLeagueRanking env leagueId =
     invoke (FetchLeagueRanking leagueId) (fetchLeagueRanking env leagueId)"

definition call_tweetLeagueUpdates :: "'r periodic_env \<Rightarrow> 'r list \<Rightarrow> int \<Rightarrow> ('r, unit) traced" where
  "call_tweetLeagueUpdates env rankings =
     invoke (TweetLeagueUpdates rankings) (tweetLeagueUpdates env rankings)"

subsection \<open>The callback\<close>

record 'r periodic_run =
  issued :: "'r issued list"
  console_out :: "console list"
  chain :: "unit promise"

text \<open>Line 21: the latest ranking available is the one from two hours ago.\<close>

definition leagueDate :: "'r periodic_env \<Rightarrow> int \<Rightarrow> string" where
  "leagueDate env now = calculateLeagueDate env (now - 120 * 60 * 1000)"

definition leagueIds :: "'r periodic_env \<Rightarrow> int \<Rightarrow> string list" where
  "leagueIds env now = [leagueDate env now @ ''T'', leagueDate env now @ ''P'']"

text \<open>Line 24: both fetches are started by \<^verbatim>\<open>map\<close> before anything is waited for.\<close>

definition tasks :: "'r periodic_env \<Rightarrow> int \<Rightarrow> ('r, 'r) traced list" where
  "tasks env now = map (\<lambda>leagueId. call_fetchLeagueRanking env leagueId now) (leagueIds env now)"

definition fetchLeagueRankings :: "'r periodic_env \<Rightarrow> int \<Rightarrow> ('r, 'r list) traced" where
  "fetchLeagueRankings env now = traced_all (tasks_ran_first env) now (tasks env now)"

text \<open>
  The two families joined on line 28: \<^verbatim>\<open>fetchStageRotations()\<close> and
  \<^verbatim>\<open>fetchLeagueRankings().then(tweetLeagueUpdates)\<close>.
\<close>

definition rotation_family :: "'r periodic_env \<Rightarrow> int \<Rightarrow> ('r, unit) traced" where
  "rotation_family env now = call_fetchStageRotations env now"

definition ranking_family :: "'r periodic_env \<Rightarrow> int \<Rightarrow> ('r, unit) traced" where
  "ranking_family env now =
     traced_then (fetchLeagueRankings env now) (call_tweetLeagueUpdates env)"

definition joined :: "'r periodic_env \<Rightarrow> int \<Rightarrow> ('r, unit list) traced" where
  "joined env now =
     traced_all (families_ran_first env) now [rotation_family env now, ranking_family env now]"

definition combined_run :: "'r periodic_env \<Rightarrow> int \<Rightarrow> unit list promise" where
  "combined_run env now = snd (joined env now)"

text \<open>The handler of \<^verbatim>\<open>.catch\<close>, lines 30 to 37.\<close>

definition catch_handler :: "error \<Rightarrow> console list" where
  "catch_handler err =
     (if is_NintendoAPIError err then [ConsoleLog (ErrorObject err)]
      else [ConsoleError (ErrorObject err)])"

text \<open>
  The callback of the periodic CronJob (index.js, lines 19 to 38). The calls issued are
  those behind the joined promise. The chain ends with \<^verbatim>\<open>.then(...).catch(...)\<close>, whose
  handlers both return normally.
\<close>

definition periodic_job :: "'r periodic_env \<Rightarrow> int \<Rightarrow> 'r periodic_run" where
  "periodic_job env now =
     \<lparr>issued = fst (joined env now),
      console_out =
        (case combined_run env now of
           (t, Inr vs) \<Rightarrow> [ConsoleLog (CronCompleted t)]
         | (t, Inl err) \<Rightarrow> catch_handler err),
      chain = (fst (combined_run env now), Inr ())\<rparr>"

subsection \<open>Reading a run of the periodic job\<close>

fun league_fetches :: "'r issued list \<Rightarrow> (string \<times> int \<times> int \<times> error option) list" where
  "league_fetches [] = []"
| "league_fetches ((FetchLeagueRanking leagueId, x) # cs) = (leagueId, x) # league_fetches cs"
| "league_fetches (c # cs) = league_fetches cs"

fun notifications :: "'r issued list \<Rightarrow> ('r list \<times> int) list" where
  "notifications [] = []"
| "notifications ((TweetLeagueUpdates batch, t, x) # cs) = (batch, t) # notifications cs"
| "notifications (c # cs) = notifications cs"

fun rotation_fetches :: "'r issued list \<Rightarrow> int list" where
  "rotation_fetches [] = []"
| "rotation_fetches ((FetchStageRotations, t, x) # cs) = t # rotation_fetches cs"
| "rotation_fetches (c # cs) = rotation_fetches cs"

subsection \<open>Concrete triggers of the periodic job\<close>

text \<open>Every collaborator succeeds; a ranking is stood for by a number.\<close>

definition penv_ok :: "nat periodic_env" where
  "penv_ok =
     \<lparr>calculateLeagueDate = (\<lambda>t. if t < 0 then ''earlier'' else ''later''),
      fetchStageRotations = (\<lambda>t. (100, Inr ())),
      fetchLeagueRanking =
        (\<lambda>leagueId t. (if leagueId = ''earlierT'' then 250 else 200, Inr (length leagueId))),
      tweetLeagueUpdates = (\<lambda>batch t. (50, Inr ())),
      tasks_ran_first = 0,
      families_ran_first = 0\<rparr>"

definition penv_rotation_fails :: "nat periodic_env" where
  "penv_rotation_fails =
     penv_ok\<lparr>fetchStageRotations := (\<lambda>t. (100, Inl (OtherError ''rotation'')))\<rparr>"

definition penv_ranking_fails :: "nat periodic_env" where
  "penv_ranking_fails =
     penv_ok\<lparr>fetchLeagueRanking :=
       (\<lambda>leagueId t. (200, Inl (NintendoAPIError ''ranking'')))\<rparr>"

definition penv_both_fail :: "nat periodic_env" where
  "penv_both_fail =
     penv_rotation_fails\<lparr>fetchLeagueRanking :=
       (\<lambda>leagueId t. (200, Inl (NintendoAPIError ''ranking'')))\<rparr>"

text \<open>
  Both families are rejected in the same millisecond, and the rejection of the ranking
  family is the one that ran first.
\<close>

definition penv_tie :: "nat periodic_env" where
  "penv_tie =
     penv_both_fail\<lparr>fetchStageRotations := (\<lambda>t. (200, Inl (OtherError ''rotation''))),
       families_ran_first := 1\<rparr>"

section \<open>The monthly job\<close>

text \<open>
  A \<^verbatim>\<open>moment\<close> is read through its calendar fields: \<^verbatim>\<open>year()\<close>, \<^verbatim>\<open>month()\<close> (January
  is 0) and \<^verbatim>\<open>date()\<close> (the day of the month, from 1).
\<close>

record moment =
  year :: int
  month :: int
  date :: int

definition isLeapYear :: "int \<Rightarrow> bool" where
  "isLeapYear y = ((y mod 4 = 0 \<and> y mod 100 \<noteq> 0) \<or> y mod 400 = 0)"

text \<open>The month may lie outside 0 to 11; the year is carried, as moment.js does.\<close>

definition daysInMonth :: "int \<Rightarrow> int \<Rightarrow> int" where
  "daysInMonth y m =
     (let modMonth = m mod 12; y' = y + (m - modMonth) div 12
      in if modMonth = 1 then (if isLeapYear y' then 29 else 28)
         else 31 - ((modMonth mod 7) mod 2))"

text \<open>
  \<^verbatim>\<open>Date.prototype.setUTCMonth(month, date)\<close> for a date that exists in the target month:
  a month outside 0 to 11 moves the year.
\<close>

definition setUTCMonth :: "moment \<Rightarrow> int \<Rightarrow> int \<Rightarrow> moment" where
  "setUTCMonth mom m d = \<lparr>year = year mom + m div 12, month = m mod 12, date = d\<rparr>"

text \<open>
  \<^verbatim>\<open>subtract(1, 'month')\<close>: moment.js sets the month to one less and clamps the day to the
  length of the target month.
\<close>

definition subtract_month :: "moment \<Rightarrow> moment" where
  "subtract_month mom =
     setUTCMonth mom (month mom - 1) (min (date mom) (daysInMonth (year mom) (month mom - 1)))"

record monthly_env =
  fetchXRanking :: "int \<Rightarrow> int \<Rightarrow> int \<Rightarrow> nat \<times> (error + unit)"

text \<open>
  A run of the monthly job: the X ranking fetches issued (year, month, start, settling
  time, rejection), the console lines and the promise the chain ends with.
\<close>

record monthly_run =
  fetched :: "(int \<times> int \<times> int \<times> int \<times> error option) list"
  printed :: "console list"
  settled :: "unit promise"

text \<open>
  The callback of the monthly CronJob (index.js, lines 72 to 85), triggered at time \<open>t\<close>
  when \<^verbatim>\<open>moment().utc()\<close> is \<open>now\<close>.
\<close>

definition monthly_job :: "monthly_env \<Rightarrow> moment \<Rightarrow> int \<Rightarrow> monthly_run" where
  "monthly_job env now t =
     (let lastMonth = subtract_month now;
          y = year lastMonth;
          m = month lastMonth + 1;
          p = start (fetchXRanking env y m) t
      in \<lparr>fetched = [(y, m, t, fst p, rejection p)],
          printed =
            (case snd p of
               Inr v \<Rightarrow> [ConsoleLog (XRankingFetched y m)]
             | Inl err \<Rightarrow> [ConsoleLog (XRankingFailed y m), ConsoleError (ErrorObject err)]),
          settled = (fst p, Inr ())\<rparr>)"

definition menv_fails :: monthly_env where
  "menv_fails = \<lparr>fetchXRanking = (\<lambda>y m t. (700, Inl (NintendoAPIError ''no ranking yet'')))\<rparr>"

section \<open>The TTL cache\<close>

text \<open>
  Modelled from the spec: \<^verbatim>\<open>Cache.wrap\<close> of cache.js, which is not among the sources; only
  its calls in the distribution endpoints are. A cache entry is a value with the time it
  was stored at and its time to live, in seconds. An entry is read while
  \<open>now - storedAt < ttlSeconds\<close>.
\<close>

record 'v cache_entry =
  entry_value :: 'v
  storedAt :: int
  ttlSeconds :: int

type_synonym 'v cache_store = "string \<rightharpoonup> 'v cache_entry"

definition unexpired :: "'v cache_entry \<Rightarrow> int \<Rightarrow> bool" where
  "unexpired e now = (now - storedAt e < ttlSeconds e)"

definition cached :: "'v cache_store \<Rightarrow> string \<Rightarrow> int \<Rightarrow> 'v option" where
  "cached store key now =
     (case store key of
        None \<Rightarrow> None
      | Some e \<Rightarrow> if unexpired e now then Some (entry_value e) else None)"

text \<open>
  What a call of \<^verbatim>\<open>wrap\<close> gives: the value returned or the error thrown, the store
  afterwards, and whether the producer was invoked.
\<close>

record 'v wrapped =
  returned :: "error + 'v"
  store_after :: "'v cache_store"
  invoked :: bool

text \<open>
  Modelled from the spec: a non-expired entry for the key is returned without invoking
  the producer; otherwise the producer is invoked and its result is stored under the key
  with \<open>storedAt = now\<close> and returned; an exception of the producer reaches the caller
  and leaves the store as it was.
\<close>

definition wrap ::
  "'v cache_store \<Rightarrow> int \<Rightarrow> string \<Rightarrow> (unit \<Rightarrow> error + 'v) \<Rightarrow> int \<Rightarrow> 'v wrapped" where
  "wrap store now key producer ttl =
     (case cached store key now of
        Some v \<Rightarrow> \<lparr>returned = Inr v, store_after = store, invoked = False\<rparr>
      | None \<Rightarrow>
          (case producer () of
             Inl err \<Rightarrow> \<lparr>returned = Inl err, store_after = store, invoked = True\<rparr>
           | Inr v \<Rightarrow>
               \<lparr>returned = Inr v,
                store_after = store(key \<mapsto> \<lparr>entry_value = v, storedAt = now, ttlSeconds = ttl\<rparr>),
                invoked = True\<rparr>))"

text \<open>
  The handler of \<^verbatim>\<open>/distributions/x\<close> (lines 540 to 588): the body of the producer is the
  query over \<^verbatim>\<open>x_rankings\<close>, here a parameter.
\<close>

definition distributions_x ::
  "'v cache_store \<Rightarrow> int \<Rightarrow> (unit \<Rightarrow> error + 'v) \<Rightarrow> 'v wrapped" where
  "distributions_x store now producer = wrap store now ''distributions_x'' producer 86400"

section \<open>The records endpoint\<close>

subsection \<open>The cache path\<close>







subsection \<open>Rows and objects\<close>











subsection \<open>The files\<close>





subsection \<open>Collaborators and results\<close>





subsection \<open>The handler\<close>









subsection \<open>Concrete requests\<close>









section \<open>Properties of the daily job\<close>


lemma drain_Cons:
  "drain env (s # rest) t =
     (case fetchSplatfestRanking env (region s) (splatfest_id s) t of
        (d, Inl e) \<Rightarrow>
          ([Console (ConsoleLog (DailyFetching (region s) (splatfest_id s))),
            Awaited (FetchSplatfestRanking (region s) (splatfest_id s)) t (t + int d) (Some e)],
           t + int d, Inl e)
      | (d, Inr u) \<Rightarrow>
          (case drain env rest (t + int d + int (60000 + timer_lateness env (t + int d))) of
             (evs, t', r) \<Rightarrow>
               ([Console (ConsoleLog (DailyFetching (region s) (splatfest_id s))),
                 Awaited (FetchSplatfestRanking (region s) (splatfest_id s)) t (t + int d) None,
                 Console (ConsoleLog DailyDone),
                 Awaited (Wait 60000) (t + int d)
                   (t + int d + int (60000 + timer_lateness env (t + int d))) None] @ evs,
                t', r)))"
  by (simp add: bind_async_def await_def console_log_def wait_def split: prod.splits sum.splits)

lemma paced_mono: "paced lo sp \<Longrightarrow> lo' \<le> lo \<Longrightarrow> paced lo' sp"
  by (cases sp) auto

lemma drain_paced: "paced t (fetch_spans (fst (drain env items t)))"
proof (induction items arbitrary: t)
  case Nil
  show ?case by (simp add: return_async_def fetch_spans_def)
next
  case (Cons s rest)
  show ?case
  proof (cases "fetchSplatfestRanking env (region s) (splatfest_id s) t")
    case (Pair d r)
    show ?thesis
    proof (cases r)
      case (Inl e)
      with Pair show ?thesis by (simp add: drain_Cons fetch_spans_def del: drain.simps)
    next
      case (Inr u)
      let ?t2 = "t + int d + int (60000 + timer_lateness env (t + int d))"
      have "paced ?t2 (fetch_spans (fst (drain env rest ?t2)))" by (rule Cons.IH)
      then have "paced (t + int d + 60000) (fetch_spans (fst (drain env rest ?t2)))"
        by (rule paced_mono) simp
      with Pair Inr show ?thesis
        by (auto simp add: drain_Cons fetch_spans_def split: prod.splits simp del: drain.simps)
    qed
  qed
qed

lemma paced_nth:
  "paced lo sp \<Longrightarrow> Suc i < length sp \<Longrightarrow>
     fst (sp ! i) \<le> snd (sp ! i) \<and> snd (sp ! i) + 60000 \<le> fst (sp ! Suc i)"
proof (induction sp arbitrary: lo i)
  case Nil
  then show ?case by simp
next
  case (Cons a sp)
  obtain s s' where a: "a = (s, s')" by (cases a)
  show ?case
  proof (cases i)
    case 0
    with Cons.prems a show ?thesis by (cases sp) auto
  next
    case (Suc j)
    with Cons.prems a Cons.IH[of "s' + 60000" j] show ?thesis by simp
  qed
qed


lemma drain_logs_no_error: "logged_errors (fst (drain env items t)) = []"
proof (induction items arbitrary: t)
  case Nil
  show ?case by (simp add: return_async_def)
next
  case (Cons s rest)
  show ?case
    using Cons.IH
    by (auto simp add: drain_Cons split: prod.splits sum.splits simp del: drain.simps)
      (metis fst_conv)
qed

lemma drain_outcome:
  "case drain env items t of
     (evs, t', Inr u) \<Rightarrow>
       attempted evs = items \<and> fetch_results evs = replicate (length items) None
   | (evs, t', Inl e) \<Rightarrow>
       (\<exists>n<length items. attempted evs = take (Suc n) items \<and>
          fetch_results evs = replicate n None @ [Some e])"
proof (induction items arbitrary: t)
  case Nil
  show ?case by (simp add: return_async_def attempted_def fetch_results_def)
next
  case (Cons s rest)
  obtain d r where f: "fetchSplatfestRanking env (region s) (splatfest_id s) t = (d, r)"
    by (cases "fetchSplatfestRanking env (region s) (splatfest_id s) t")
  show ?case
  proof (cases r)
    case (Inl e)
    with f show ?thesis
      by (simp add: drain_Cons attempted_def fetch_results_def del: drain.simps)
  next
    case (Inr u)
    let ?t2 = "t + int d + int (60000 + timer_lateness env (t + int d))"
    obtain evs t' r' where dr: "drain env rest ?t2 = (evs, t', r')"
      by (cases "drain env rest ?t2")
    have now: "drain env (s # rest) t =
       ([Console (ConsoleLog (DailyFetching (region s) (splatfest_id s))),
         Awaited (FetchSplatfestRanking (region s) (splatfest_id s)) t (t + int d) None,
         Console (ConsoleLog DailyDone),
         Awaited (Wait 60000) (t + int d) ?t2 None] @ evs, t', r')"
      using f Inr dr by (simp add: drain_Cons del: drain.simps)
    have ih: "case (evs, t', r') of
       (evs, t', Inr u) \<Rightarrow>
         attempted evs = rest \<and> fetch_results evs = replicate (length rest) None
     | (evs, t', Inl e) \<Rightarrow>
         (\<exists>n<length rest. attempted evs = take (Suc n) rest \<and>
            fetch_results evs = replicate n None @ [Some e])"
      using Cons.IH[of ?t2] dr by simp
    show ?thesis
    proof (cases r')
      case (Inr u')
      with ih now show ?thesis
        by (simp add: attempted_def fetch_results_def del: drain.simps)
    next
      case (Inl e)
      with ih obtain n where n: "n < length rest" "attempted evs = take (Suc n) rest"
          "fetch_results evs = replicate n None @ [Some e]"
        by auto
      have "Suc n < length (s # rest) \<and>
          attempted (fst (drain env (s # rest) t)) = take (Suc (Suc n)) (s # rest) \<and>
          fetch_results (fst (drain env (s # rest) t)) = replicate (Suc n) None @ [Some e]"
        using n now by (simp add: attempted_def fetch_results_def del: drain.simps)
      then show ?thesis
        using now Inl by (auto simp del: drain.simps replicate.simps take_Suc_Cons)
    qed
  qed
qed


lemma awaits_append: "awaits (xs @ ys) = awaits xs @ awaits ys"
  by (induction xs rule: awaits.induct) simp_all

lemma drain_awaits_after:
  "lo \<le> t \<Longrightarrow>
   list_all (\<lambda>(c, s, s', x). c \<noteq> FetchSplatfestSchedules \<and> lo \<le> s)
     (awaits (fst (drain env items t)))"
proof (induction items arbitrary: t)
  case Nil
  show ?case by (simp add: return_async_def)
next
  case (Cons s rest)
  obtain d r where f: "fetchSplatfestRanking env (region s) (splatfest_id s) t = (d, r)"
    by (cases "fetchSplatfestRanking env (region s) (splatfest_id s) t")
  show ?case
  proof (cases r)
    case (Inl e)
    with f Cons.prems show ?thesis by (simp add: drain_Cons del: drain.simps)
  next
    case (Inr u)
    let ?t2 = "t + int d + int (60000 + timer_lateness env (t + int d))"
    obtain evs t' r' where dr: "drain env rest ?t2 = (evs, t', r')"
      by (cases "drain env rest ?t2")
    have "lo \<le> ?t2" using Cons.prems by simp
    from Cons.IH[OF this] dr
    have "list_all (\<lambda>(c, s, s', x). c \<noteq> FetchSplatfestSchedules \<and> lo \<le> s) (awaits evs)"
      by simp
    with f Inr dr Cons.prems show ?thesis by (simp add: drain_Cons del: drain.simps)
  qed
qed

text \<open>
  C10. When \<^verbatim>\<open>DO_NOT_FETCH_SPLATFEST\<close> is set the daily job does nothing at all. Otherwise
  its first awaited call is the schedule sync, started at the trigger; when that call is
  rejected nothing else is awaited and the job ends with that error; when it is fulfilled
  the next awaited call is the backlog query, and the query and every later call (ranking
  fetches and waits) start no earlier than the time the schedule sync settled.
\<close>

theorem daily_job_schedule_sync_first:
  "case daily_job env t of
     (evs, t', r) \<Rightarrow>
       (if DO_NOT_FETCH_SPLATFEST env then evs = [] \<and> r = Inr ()
        else
          (case fetchSplatfestSchedules env t of
             (d, Inl e) \<Rightarrow>
               awaits evs = [(FetchSplatfestSchedules, t, t + int d, Some e)] \<and> r = Inl e
           | (d, Inr u) \<Rightarrow>
               (\<exists>later. awaits evs = (FetchSplatfestSchedules, t, t + int d, None) # later \<and>
                  fst (hd later) = QueryUnfetchedSplatfests \<and>
                  list_all (\<lambda>(c, s, s', x). c \<noteq> FetchSplatfestSchedules \<and> t + int d \<le> s)
                    later)))"
proof (cases "DO_NOT_FETCH_SPLATFEST env")
  case True
  then show ?thesis by (simp add: daily_job_def return_async_def)
next
  case False
  obtain d sync where f: "fetchSplatfestSchedules env t = (d, sync)"
    by (cases "fetchSplatfestSchedules env t")
  show ?thesis
  proof (cases sync)
    case (Inl e)
    with False f show ?thesis
      by (simp add: daily_job_def bind_async_def await_def)
  next
    case (Inr u)
    obtain d2 q where q: "queryUnfetchedSplatfests env (t + int d) = (d2, q)"
      by (cases "queryUnfetchedSplatfests env (t + int d)")
    show ?thesis
    proof (cases q)
      case (Inl e)
      with False f Inr q show ?thesis
        by (simp add: daily_job_def bind_async_def await_def)
    next
      case (Inr items)
      have ge: "t + int d \<le> t + int d + int d2" by simp
      obtain evs t' r' where dr: "drain env items (t + int d + int d2) = (evs, t', r')"
        by (cases "drain env items (t + int d + int d2)")
      from drain_awaits_after[OF ge, of env items] dr
      have "list_all (\<lambda>(c, s, s', x). c \<noteq> FetchSplatfestSchedules \<and> t + int d \<le> s)
              (awaits evs)"
        by simp
      with False f \<open>sync = Inr u\<close> q Inr dr show ?thesis
        by (cases r')
          (simp_all add: daily_job_def bind_async_def await_def console_log_def
            return_async_def awaits_append)
    qed
  qed
qed


theorem daily_job_schedule_sync_first_witness:
  "fst (daily_job (env_ok\<lparr>DO_NOT_FETCH_SPLATFEST := True\<rparr>) 0) = [] \<and>
   \<not> DO_NOT_FETCH_SPLATFEST env_ok \<and> fetchSplatfestSchedules env_ok 0 = (500, Inr ()) \<and>
   (\<exists>later. awaits (fst (daily_job env_ok 0)) = (FetchSplatfestSchedules, 0, 500, None) # later \<and>
      fst (hd later) = QueryUnfetchedSplatfests \<and>
      list_all (\<lambda>(c, s, s', x). c \<noteq> FetchSplatfestSchedules \<and> 500 \<le> s) later)"
proof -
  have a: "\<not> DO_NOT_FETCH_SPLATFEST env_ok" "fetchSplatfestSchedules env_ok 0 = (500, Inr ())"
    by (simp_all add: env_ok_def)
  obtain evs t' r where d: "daily_job env_ok 0 = (evs, t', r)"
    by (cases "daily_job env_ok 0")
  obtain evs0 t0 r0 where d0: "daily_job (env_ok\<lparr>DO_NOT_FETCH_SPLATFEST := True\<rparr>) 0 = (evs0, t0, r0)"
    by (cases "daily_job (env_ok\<lparr>DO_NOT_FETCH_SPLATFEST := True\<rparr>) 0")
  from daily_job_schedule_sync_first[where env=env_ok and t=0]
    daily_job_schedule_sync_first[where env="env_ok\<lparr>DO_NOT_FETCH_SPLATFEST := True\<rparr>" and t=0]
    a d d0
  show ?thesis
    by simp
qed

text \<open>
  C1 (amended). The drain attempts the backlog items in order and stops at the first
  fetch that is rejected: when no fetch is rejected every item is attempted and the drain
  is fulfilled; otherwise the items attempted are those up to and including the first
  rejected one, no later item is attempted, and the drain ends with that rejection. Nothing
  in the loop writes an error to the console.
\<close>

theorem drain_stops_at_first_rejection:
  "case drain env items t of
     (evs, t', r) \<Rightarrow>
       logged_errors evs = [] \<and>
       (case r of
          Inr u \<Rightarrow> attempted evs = items \<and> fetch_results evs = replicate (length items) None
        | Inl e \<Rightarrow>
            (\<exists>n<length items. attempted evs = take (Suc n) items \<and>
               fetch_results evs = replicate n None @ [Some e]))"
  using drain_outcome[where env=env and items=items and t=t]
    drain_logs_no_error[where env=env and items=items and t=t]
  by (auto split: prod.splits sum.splits)

lemmas daily_eval =
  daily_job_def env_second_fails_def env_ok_def backlog3_def bind_async_def await_def
  console_log_def wait_def return_async_def attempted_def fetch_results_def fetch_spans_def

theorem drain_stops_at_first_rejection_witness:
  "attempted (fst (drain env_second_fails backlog3 520)) = take 2 backlog3 \<and>
   fetch_results (fst (drain env_second_fails backlog3 520))
     = [None, Some (NintendoAPIError ''not found'')] \<and>
   snd (snd (drain env_second_fails backlog3 520)) = Inl (NintendoAPIError ''not found'')"
  using drain_stops_at_first_rejection[where env=env_second_fails and items=backlog3 and t=520]
  by (simp add: daily_eval)

text \<open>
  C1 as stated fails on a backlog of three items whose second fetch is rejected with a
  \<^verbatim>\<open>NintendoAPIError\<close>: the third item is never attempted, no error is written to the
  console, and the callback's promise is rejected with that error.
\<close>

theorem daily_job_aborts_counterexample:
  "attempted (fst (daily_job env_second_fails 0)) =
     [\<lparr>region = ''jp'', splatfest_id = 1\<rparr>, \<lparr>region = ''na'', splatfest_id = 2\<rparr>] \<and>
   logged_errors (fst (daily_job env_second_fails 0)) = [] \<and>
   snd (snd (daily_job env_second_fails 0)) = Inl (NintendoAPIError ''not found'')"
  by (simp add: daily_eval)

text \<open>
  C3. In one drain over any backlog, each ranking fetch settles no earlier than it starts,
  and the next ranking fetch starts at least 60000 ms after the previous one settled: no
  two fetches overlap.
\<close>

theorem drain_sequential_spaced:
  "Suc i < length (fetch_spans (fst (drain env items t))) \<Longrightarrow>
     fst (fetch_spans (fst (drain env items t)) ! i)
       \<le> snd (fetch_spans (fst (drain env items t)) ! i) \<and>
     snd (fetch_spans (fst (drain env items t)) ! i) + 60000
       \<le> fst (fetch_spans (fst (drain env items t)) ! Suc i)"
  using drain_paced by (rule paced_nth)

theorem drain_sequential_spaced_witness:
  "Suc 0 < length (fetch_spans (fst (drain env_ok backlog3 0))) \<and>
   snd (fetch_spans (fst (drain env_ok backlog3 0)) ! 0) + 60000
     \<le> fst (fetch_spans (fst (drain env_ok backlog3 0)) ! Suc 0)"
proof -
  have h: "Suc 0 < length (fetch_spans (fst (drain env_ok backlog3 0)))"
    by (simp add: daily_eval)
  from drain_sequential_spaced[OF h] h show ?thesis by simp
qed

section \<open>Properties of the periodic job\<close>


lemma earliest_nonempty: "rs \<noteq> [] \<Longrightarrow> earliest rs \<noteq> []"
proof -
  assume ne: "rs \<noteq> []"
  then have "Min (fst ` set rs) \<in> fst ` set rs" by (intro Min_in) simp_all
  then obtain t e where m: "(t, e) \<in> set rs" "t = Min (fst ` set rs)" by force
  have "t \<le> t'" if "(t', e') \<in> set rs" for t' e'
  proof -
    from that have "t' \<in> fst ` set rs" by force
    then show ?thesis using m(2) by simp
  qed
  then have "(t, e) \<in> set (earliest rs)"
    using m(1) by (auto simp add: earliest_def list_all_iff)
  then show ?thesis by auto
qed

lemma earliest_subset: "set (earliest rs) \<subseteq> set rs"
  by (auto simp add: earliest_def)

lemma Promise_all_fulfilled:
  "rejections ps = [] \<Longrightarrow>
     Promise_all k now ps = (foldr max (map fst ps) now, Inr (fulfilled_values ps))"
  by (simp add: Promise_all_def earliest_def)

lemma Promise_all_rejected:
  assumes "rejections ps \<noteq> []"
  shows "\<exists>t e. Promise_all k now ps = (t, Inl e) \<and> (t, e) \<in> set (earliest (rejections ps))"
proof -
  obtain r rs where c: "earliest (rejections ps) = r # rs"
    using earliest_nonempty[OF assms] by (cases "earliest (rejections ps)") auto
  let ?x = "(r # rs) ! (k mod length (r # rs))"
  have "?x \<in> set (r # rs)" by (intro nth_mem) simp
  moreover obtain t e where x: "?x = (t, e)" by (cases ?x)
  ultimately show ?thesis using c by (auto simp add: Promise_all_def)
qed

lemma issued_periodic_job:
  "issued (periodic_job env now) =
     [issue FetchStageRotations now (start (fetchStageRotations env) now),
      issue (FetchLeagueRanking (leagueDate env now @ ''T'')) now
        (start (fetchLeagueRanking env (leagueDate env now @ ''T'')) now),
      issue (FetchLeagueRanking (leagueDate env now @ ''P'')) now
        (start (fetchLeagueRanking env (leagueDate env now @ ''P'')) now)]
     @ (case snd (fetchLeagueRankings env now) of
          (t, Inr rankings) \<Rightarrow>
            [issue (TweetLeagueUpdates rankings) t (start (tweetLeagueUpdates env rankings) t)]
        | (t, Inl e) \<Rightarrow> [])"
  by (simp add: periodic_job_def joined_def traced_all_def rotation_family_def
      ranking_family_def traced_then_def fetchLeagueRankings_def tasks_def leagueIds_def
      call_fetchStageRotations_def call_fetchLeagueRanking_def call_tweetLeagueUpdates_def
      invoke_def split: prod.splits sum.splits)

lemma rankings_promise:
  "snd (fetchLeagueRankings env now) =
     Promise_all (tasks_ran_first env) now
       [start (fetchLeagueRanking env (leagueDate env now @ ''T'')) now,
        start (fetchLeagueRanking env (leagueDate env now @ ''P'')) now]"
  by (simp add: fetchLeagueRankings_def traced_all_def tasks_def leagueIds_def
      call_fetchLeagueRanking_def invoke_def)

lemma ranking_family_promise:
  "snd (ranking_family env now) =
     (case snd (fetchLeagueRankings env now) of
        (t, Inr rankings) \<Rightarrow> start (tweetLeagueUpdates env rankings) t
      | (t, Inl e) \<Rightarrow> (t, Inl e))"
  by (simp add: ranking_family_def traced_then_def call_tweetLeagueUpdates_def invoke_def
      split: prod.splits sum.splits)

lemma rankings_both_fulfilled:
  assumes "fetchLeagueRanking env (leagueDate env now @ ''T'') now = (dT, Inr a)"
    and "fetchLeagueRanking env (leagueDate env now @ ''P'') now = (dP, Inr b)"
  shows "snd (fetchLeagueRankings env now) = (max (now + int dT) (now + int dP), Inr [a, b])"
  using assms by (simp add: rankings_promise start_def Promise_all_fulfilled max_def)

lemma rankings_one_rejected:
  assumes "fetchLeagueRanking env (leagueDate env now @ ''T'') now = (dT, rT)"
    and "fetchLeagueRanking env (leagueDate env now @ ''P'') now = (dP, rP)"
    and "isl rT \<or> isl rP"
  shows "\<exists>t e. snd (fetchLeagueRankings env now) = (t, Inl e)"
proof -
  let ?ps = "[(now + int dT, rT), (now + int dP, rP)]"
  have "rejections ?ps \<noteq> []"
    using assms(3) by (cases rT; cases rP) simp_all
  from Promise_all_rejected[OF this, of "tasks_ran_first env" now]
  show ?thesis using assms(1,2) by (auto simp add: rankings_promise start_def)
qed

text \<open>
  C2. For every trigger time \<open>t\<close>, the league ranking identifiers the periodic job
  fetches are \<^verbatim>\<open>calculateLeagueDate\<close> of \<open>t\<close> minus 120 minutes, followed by the sub-group
  tag: the date is taken from \<open>t - 120 min\<close>, not from \<open>t\<close>.
\<close>

theorem periodic_ids_from_two_hours_ago:
  "map fst (league_fetches (issued (periodic_job env t))) =
     [calculateLeagueDate env (t - 120 * 60 * 1000) @ ''T'',
      calculateLeagueDate env (t - 120 * 60 * 1000) @ ''P'']"
  by (simp add: issued_periodic_job issue_def leagueDate_def split: prod.splits sum.splits)

text \<open>
  C4. When the combined run of the periodic job is rejected with an error, the job writes
  exactly that error to the console, with \<^verbatim>\<open>console.log\<close> when it is a
  \<^verbatim>\<open>NintendoAPIError\<close> and with \<^verbatim>\<open>console.error\<close> otherwise, and the chain of the job is
  fulfilled all the same: the error is not rethrown.
\<close>

theorem periodic_failure_classified:
  "snd (combined_run env now) = Inl err \<Longrightarrow>
     console_out (periodic_job env now) =
       (case err of
          NintendoAPIError m \<Rightarrow> [ConsoleLog (ErrorObject err)]
        | OtherError m \<Rightarrow> [ConsoleError (ErrorObject err)]) \<and>
     snd (chain (periodic_job env now)) = Inr ()"
  by (cases "combined_run env now"; cases err) (simp_all add: periodic_job_def catch_handler_def)

text \<open>
  C5. On every trigger the periodic job issues exactly two league ranking fetches, for the
  derived league date followed by \<open>T\<close> and by \<open>P\<close>, both started at the trigger time, so
  neither waits for the other. When both are fulfilled, \<^verbatim>\<open>tweetLeagueUpdates\<close> is called
  once, with the two rankings as one batch, at the time the later of the two settles, and
  the ranking family settles as that call does. When either fetch is rejected,
  \<^verbatim>\<open>tweetLeagueUpdates\<close> is never called and the ranking family is rejected.
\<close>

theorem periodic_two_fetches_one_batch:
  "fetchLeagueRanking env (leagueDate env now @ ''T'') now = (dT, rT) \<Longrightarrow>
   fetchLeagueRanking env (leagueDate env now @ ''P'') now = (dP, rP) \<Longrightarrow>
     league_fetches (issued (periodic_job env now)) =
       [(leagueDate env now @ ''T'', now, now + int dT, rejection (now + int dT, rT)),
        (leagueDate env now @ ''P'', now, now + int dP, rejection (now + int dP, rP))] \<and>
     notifications (issued (periodic_job env now)) =
       (case (rT, rP) of
          (Inr a, Inr b) \<Rightarrow> [([a, b], max (now + int dT) (now + int dP))]
        | _ \<Rightarrow> []) \<and>
     (case (rT, rP) of
        (Inr a, Inr b) \<Rightarrow>
          snd (ranking_family env now) =
            start (tweetLeagueUpdates env [a, b]) (max (now + int dT) (now + int dP))
      | _ \<Rightarrow> isl (snd (snd (ranking_family env now))))"
proof -
  assume fT: "fetchLeagueRanking env (leagueDate env now @ ''T'') now = (dT, rT)"
    and fP: "fetchLeagueRanking env (leagueDate env now @ ''P'') now = (dP, rP)"
  have fetches: "league_fetches (issued (periodic_job env now)) =
       [(leagueDate env now @ ''T'', now, now + int dT, rejection (now + int dT, rT)),
        (leagueDate env now @ ''P'', now, now + int dP, rejection (now + int dP, rP))]"
    using fT fP
    by (simp add: issued_periodic_job issue_def start_def split: prod.splits sum.splits)
  show ?thesis
  proof (cases "isl rT \<or> isl rP")
    case False
    then obtain a b where ab: "rT = Inr a" "rP = Inr b"
      by (cases rT; cases rP) auto
    have "snd (fetchLeagueRankings env now) = (max (now + int dT) (now + int dP), Inr [a, b])"
      using fT fP ab by (intro rankings_both_fulfilled) simp_all
    then show ?thesis
      using fetches ab
      by (simp add: issued_periodic_job ranking_family_promise issue_def)
  next
    case True
    from rankings_one_rejected[OF fT fP True]
    obtain t e where rej: "snd (fetchLeagueRankings env now) = (t, Inl e)" by blast
    show ?thesis
      using fetches rej True
      by (cases rT; cases rP)
        (simp_all add: issued_periodic_job ranking_family_promise issue_def)
  qed
qed


lemmas periodic_eval =
  periodic_job_def combined_run_def joined_def ranking_family_def rotation_family_def
  fetchLeagueRankings_def tasks_def leagueIds_def leagueDate_def traced_then_def
  traced_all_def invoke_def call_fetchStageRotations_def call_fetchLeagueRanking_def
  call_tweetLeagueUpdates_def Promise_all_def earliest_def start_def issue_def
  rejection_def catch_handler_def penv_ok_def penv_rotation_fails_def penv_both_fail_def
  penv_ranking_fails_def penv_tie_def

theorem periodic_failure_classified_witness:
  "snd (combined_run penv_ranking_fails 0) = Inl (NintendoAPIError ''ranking'') \<and>
   console_out (periodic_job penv_ranking_fails 0)
     = [ConsoleLog (ErrorObject (NintendoAPIError ''ranking''))] \<and>
   snd (combined_run penv_rotation_fails 0) = Inl (OtherError ''rotation'') \<and>
   console_out (periodic_job penv_rotation_fails 0)
     = [ConsoleError (ErrorObject (OtherError ''rotation''))]"
proof -
  have a: "snd (combined_run penv_ranking_fails 0) = Inl (NintendoAPIError ''ranking'')"
    by (simp add: periodic_eval)
  have b: "snd (combined_run penv_rotation_fails 0) = Inl (OtherError ''rotation'')"
    by (simp add: periodic_eval)
  from periodic_failure_classified[OF a] periodic_failure_classified[OF b] a b
  show ?thesis by simp
qed

theorem periodic_two_fetches_one_batch_witness:
  "fetchLeagueRanking penv_ok (leagueDate penv_ok 0 @ ''T'') 0 = (250, Inr 8) \<and>
   fetchLeagueRanking penv_ok (leagueDate penv_ok 0 @ ''P'') 0 = (200, Inr 8) \<and>
   league_fetches (issued (periodic_job penv_ok 0)) =
     [(''earlierT'', 0, 250, None), (''earlierP'', 0, 200, None)] \<and>
   notifications (issued (periodic_job penv_ok 0)) = [([8, 8], 250)] \<and>
   snd (ranking_family penv_ok 0) = (300, Inr ())"
proof -
  have a: "fetchLeagueRanking penv_ok (leagueDate penv_ok 0 @ ''T'') 0 = (250, Inr 8)"
    by (simp add: penv_ok_def leagueDate_def)
  have b: "fetchLeagueRanking penv_ok (leagueDate penv_ok 0 @ ''P'') 0 = (200, Inr 8)"
    by (simp add: penv_ok_def leagueDate_def)
  have c: "leagueDate penv_ok 0 = ''earlier''"
    by (simp add: penv_ok_def leagueDate_def)
  have d: "start (tweetLeagueUpdates penv_ok [8, 8]) 250 = (300, Inr ())"
    by (simp add: penv_ok_def start_def)
  from periodic_two_fetches_one_batch[OF a b] a b c d show ?thesis
    by (simp add: rejection_def)
qed

text \<open>
  C6 as stated fails. In the first trigger the rotation fetch is rejected and the ranking
  family is fulfilled; in the second both are rejected. The console shows the same single
  line in both, the rotation error: the outcome of the ranking family is not reported.
\<close>

theorem periodic_single_report_counterexample:
  "snd (snd (rotation_family penv_rotation_fails 0)) = Inl (OtherError ''rotation'') \<and>
   snd (snd (ranking_family penv_rotation_fails 0)) = Inr () \<and>
   snd (snd (rotation_family penv_both_fail 0)) = Inl (OtherError ''rotation'') \<and>
   snd (snd (ranking_family penv_both_fail 0)) = Inl (NintendoAPIError ''ranking'') \<and>
   console_out (periodic_job penv_rotation_fails 0)
     = [ConsoleError (ErrorObject (OtherError ''rotation''))] \<and>
   console_out (periodic_job penv_both_fail 0)
     = [ConsoleError (ErrorObject (OtherError ''rotation''))]"
  by (simp add: periodic_eval)

lemma pair_nth_mod_2: "[x, y] ! (k mod Suc (Suc 0)) = (if even k then x else y)"
proof -
  have "k mod Suc (Suc 0) = (if even k then 0 else 1)"
    by (simp add: mod_2_eq_odd flip: numeral_2_eq_2)
  then show ?thesis by simp
qed

lemma families_promise:
  "combined_run env now =
     Promise_all (families_ran_first env) now
       [snd (rotation_family env now), snd (ranking_family env now)]"
  by (simp add: combined_run_def joined_def traced_all_def)

lemma Promise_all_two:
  "Promise_all k now [(t, r), (t', r')] =
     (case (r, r') of
        (Inr u, Inr v) \<Rightarrow> (max t (max t' now), Inr [u, v])
      | (Inl e, Inr v) \<Rightarrow> (t, Inl e)
      | (Inr u, Inl e') \<Rightarrow> (t', Inl e')
      | (Inl e, Inl e') \<Rightarrow>
          (if t < t' then (t, Inl e) else if t' < t then (t', Inl e')
           else if even k then (t, Inl e) else (t', Inl e')))"
  by (cases r; cases r')
    (auto simp add: Promise_all_def earliest_def pair_nth_mod_2 simp del: nth_Cons_Suc)

lemma single_report:
  "console_out (periodic_job env now) =
     (case (snd (rotation_family env now), snd (ranking_family env now)) of
        ((t, Inr u), (t', Inr v)) \<Rightarrow> [ConsoleLog (CronCompleted (max t (max t' now)))]
      | ((t, Inl e), (t', Inr v)) \<Rightarrow> catch_handler e
      | ((t, Inr u), (t', Inl e')) \<Rightarrow> catch_handler e'
      | ((t, Inl e), (t', Inl e')) \<Rightarrow>
          (if t < t' then catch_handler e
           else if t' < t then catch_handler e'
           else if even (families_ran_first env) then catch_handler e
           else catch_handler e'))"
proof -
  obtain t r where a: "snd (rotation_family env now) = (t, r)"
    by (cases "snd (rotation_family env now)")
  obtain t' r' where b: "snd (ranking_family env now) = (t', r')"
    by (cases "snd (ranking_family env now)")
  show ?thesis
    unfolding periodic_job_def families_promise a b Promise_all_two
    by (cases r; cases r') simp_all
qed

lemma one_console_line: "length (console_out (periodic_job env now)) = 1"
  by (simp add: periodic_job_def catch_handler_def split: prod.splits sum.splits)

lemma rotation_always_issued: "rotation_fetches (issued (periodic_job env now)) = [now]"
  by (simp add: issued_periodic_job issue_def split: prod.splits sum.splits)

lemma notified_whatever_rotation_does:
  assumes "fetchLeagueRanking env (leagueDate env now @ ''T'') now = (dT, Inr a)"
    and "fetchLeagueRanking env (leagueDate env now @ ''P'') now = (dP, Inr b)"
  shows "notifications (issued (periodic_job (env\<lparr>fetchStageRotations := f\<rparr>) now))
     = [([a, b], max (now + int dT) (now + int dP))]"
proof -
  let ?env = "env\<lparr>fetchStageRotations := f\<rparr>"
  have d: "leagueDate ?env now = leagueDate env now" by (simp add: leagueDate_def)
  have "snd (fetchLeagueRankings ?env now) = (max (now + int dT) (now + int dP), Inr [a, b])"
    using assms by (intro rankings_both_fulfilled) (simp_all add: d)
  then show ?thesis
    by (simp add: issued_periodic_job issue_def d)
qed

text \<open>
  C6 (amended). The rotation fetch and the ranking family are joined in one combined
  wait. When both ranking fetches are fulfilled the notification is issued with both
  rankings whatever the rotation fetch does, and the rotation fetch is issued at the
  trigger whatever the ranking family does. The job writes one console line for the
  whole run: the completion line when both families are fulfilled, otherwise the error
  of the family that was rejected first (of two rejected in the same millisecond, the one
  whose rejection ran first), and nothing about the other family.
\<close>

theorem periodic_families_one_report:
  "(fetchLeagueRanking env (leagueDate env now @ ''T'') now = (dT, Inr a) \<and>
    fetchLeagueRanking env (leagueDate env now @ ''P'') now = (dP, Inr b) \<longrightarrow>
      notifications (issued (periodic_job (env\<lparr>fetchStageRotations := f\<rparr>) now))
        = [([a, b], max (now + int dT) (now + int dP))]) \<and>
   rotation_fetches (issued (periodic_job env now)) = [now] \<and>
   length (console_out (periodic_job env now)) = 1 \<and>
   console_out (periodic_job env now) =
     (case (snd (rotation_family env now), snd (ranking_family env now)) of
        ((t, Inr u), (t', Inr v)) \<Rightarrow> [ConsoleLog (CronCompleted (max t (max t' now)))]
      | ((t, Inl e), (t', Inr v)) \<Rightarrow> catch_handler e
      | ((t, Inr u), (t', Inl e')) \<Rightarrow> catch_handler e'
      | ((t, Inl e), (t', Inl e')) \<Rightarrow>
          (if t < t' then catch_handler e
           else if t' < t then catch_handler e'
           else if even (families_ran_first env) then catch_handler e
           else catch_handler e'))"
  using notified_whatever_rotation_does[of env now dT a dP b f]
    rotation_always_issued[of env now] one_console_line[of env now] single_report[of env now]
  by blast

theorem periodic_families_one_report_witness:
  "notifications (issued (periodic_job penv_rotation_fails 0)) = [([8, 8], 250)] \<and>
   console_out (periodic_job penv_rotation_fails 0)
     = [ConsoleError (ErrorObject (OtherError ''rotation''))] \<and>
   snd (rotation_family penv_tie 0) = (200, Inl (OtherError ''rotation'')) \<and>
   snd (ranking_family penv_tie 0) = (200, Inl (NintendoAPIError ''ranking'')) \<and>
   console_out (periodic_job penv_tie 0)
     = [ConsoleLog (ErrorObject (NintendoAPIError ''ranking''))]"
proof -
  have a: "fetchLeagueRanking penv_ok (leagueDate penv_ok 0 @ ''T'') 0 = (250, Inr 8) \<and>
      fetchLeagueRanking penv_ok (leagueDate penv_ok 0 @ ''P'') 0 = (200, Inr 8)"
    by (simp add: penv_ok_def leagueDate_def)
  have r: "snd (rotation_family penv_rotation_fails 0) = (100, Inl (OtherError ''rotation''))"
    "snd (ranking_family penv_rotation_fails 0) = (300, Inr ())"
    by (simp_all add: periodic_eval)
  have t: "snd (rotation_family penv_tie 0) = (200, Inl (OtherError ''rotation''))"
    "snd (ranking_family penv_tie 0) = (200, Inl (NintendoAPIError ''ranking''))"
    "families_ran_first penv_tie = 1"
    by (simp_all add: periodic_eval)
  from periodic_families_one_report[of penv_ok 0 250 8 200 8
      "\<lambda>t. (100, Inl (OtherError ''rotation''))"]
    periodic_families_one_report[of penv_rotation_fails 0]
    periodic_families_one_report[of penv_tie 0] a r t
  show ?thesis
    by (simp add: penv_rotation_fails_def catch_handler_def)
qed

section \<open>Properties of the monthly job\<close>

lemma subtract_month_year_month:
  "0 \<le> month now \<Longrightarrow> month now \<le> 11 \<Longrightarrow>
     (year (subtract_month now), month (subtract_month now) + 1) =
       (if month now = 0 then (year now - 1, 12) else (year now, month now))"
proof (cases "month now = 0")
  case True
  then show ?thesis by (simp add: subtract_month_def setUTCMonth_def)
next
  case False
  assume "0 \<le> month now" "month now \<le> 11"
  with False have "(month now - 1) div 12 = 0" "(month now - 1) mod 12 = month now - 1"
    by simp_all
  with False show ?thesis by (simp add: subtract_month_def setUTCMonth_def)
qed

text \<open>
  C7. On every trigger of the monthly job, with the current UTC month \<open>month now\<close> in 0 to
  11, exactly one X ranking fetch is issued, for the calendar month before the current
  one: the same year and the month before, given from 1 to 12, or December of the year
  before when the trigger is in January. When the fetch is rejected the job writes the
  failure line and the error to the console, and the chain is fulfilled either way.
\<close>

theorem monthly_job_previous_month:
  "0 \<le> month now \<Longrightarrow> month now \<le> 11 \<Longrightarrow>
   (y, m) = (if month now = 0 then (year now - 1, 12) else (year now, month now)) \<Longrightarrow>
   fetchXRanking env y m t = (d, res) \<Longrightarrow>
     1 \<le> m \<and> m \<le> 12 \<and>
     fetched (monthly_job env now t) = [(y, m, t, t + int d, rejection (t + int d, res))] \<and>
     printed (monthly_job env now t) =
       (case res of
          Inr v \<Rightarrow> [ConsoleLog (XRankingFetched y m)]
        | Inl err \<Rightarrow> [ConsoleLog (XRankingFailed y m), ConsoleError (ErrorObject err)]) \<and>
     snd (settled (monthly_job env now t)) = Inr ()"
proof -
  assume r: "0 \<le> month now" "month now \<le> 11"
    and ym: "(y, m) = (if month now = 0 then (year now - 1, 12) else (year now, month now))"
    and f: "fetchXRanking env y m t = (d, res)"
  have eq: "year (subtract_month now) = y" "month (subtract_month now) + 1 = m"
    using subtract_month_year_month[OF r] ym by (auto split: if_splits)
  have range: "1 \<le> m \<and> m \<le> 12"
    using ym r by (auto split: if_splits)
  have run: "fetched (monthly_job env now t) = [(y, m, t, t + int d, rejection (t + int d, res))]"
    using f eq by (simp add: monthly_job_def Let_def start_def rejection_def)
  have out: "printed (monthly_job env now t) =
      (case res of
         Inr v \<Rightarrow> [ConsoleLog (XRankingFetched y m)]
       | Inl err \<Rightarrow> [ConsoleLog (XRankingFailed y m), ConsoleError (ErrorObject err)])"
    using f eq by (cases res) (simp_all add: monthly_job_def Let_def start_def)
  have "snd (settled (monthly_job env now t)) = Inr ()"
    by (simp add: monthly_job_def Let_def)
  with run out range show ?thesis by blast
qed

theorem monthly_job_previous_month_witness:
  "fetched (monthly_job menv_fails \<lparr>year = 2021, month = 0, date = 31\<rparr> 5)
     = [(2020, 12, 5, 705, Some (NintendoAPIError ''no ranking yet''))] \<and>
   printed (monthly_job menv_fails \<lparr>year = 2021, month = 0, date = 31\<rparr> 5)
     = [ConsoleLog (XRankingFailed 2020 12),
        ConsoleError (ErrorObject (NintendoAPIError ''no ranking yet''))] \<and>
   snd (settled (monthly_job menv_fails \<lparr>year = 2021, month = 0, date = 31\<rparr> 5)) = Inr ()"
  using monthly_job_previous_month[of "\<lparr>year = 2021, month = 0, date = 31\<rparr>" 2020 12
      menv_fails 5 700 "Inl (NintendoAPIError ''no ranking yet'')"]
  by (simp add: menv_fails_def rejection_def)

section \<open>Properties of the TTL cache\<close>

text \<open>
  C8. Take a store with no unexpired entry for the key at \<open>t1\<close> and call \<^verbatim>\<open>wrap\<close> with
  time to live \<open>T\<close> and a producer that succeeds with \<open>v\<close>: the producer is invoked. A second
  call less than \<open>T\<close> seconds after \<open>t1\<close> does not invoke its producer, returns \<open>v\<close> and
  leaves the store as it is: of the two calls exactly one invoked the producer. A call
  more than \<open>T\<close> seconds after \<open>t1\<close> invokes its producer again and returns what it gives.
  A producer that fails on a miss has its error returned to the caller and the store is
  left as it was.
\<close>

theorem wrap_ttl:
  "cached store key t1 = None \<Longrightarrow> producer1 () = Inr v \<Longrightarrow>
   store1 = store_after (wrap store t1 key producer1 T) \<Longrightarrow>
   t2 - t1 < T \<Longrightarrow> T < t3 - t1 \<Longrightarrow>
   cached other key t = None \<Longrightarrow> failing () = Inl err \<Longrightarrow>
     invoked (wrap store t1 key producer1 T) \<and>
     returned (wrap store t1 key producer1 T) = Inr v \<and>
     \<not> invoked (wrap store1 t2 key producer2 T) \<and>
     returned (wrap store1 t2 key producer2 T) = Inr v \<and>
     store_after (wrap store1 t2 key producer2 T) = store1 \<and>
     invoked (wrap store1 t3 key producer3 T) \<and>
     returned (wrap store1 t3 key producer3 T) = producer3 () \<and>
     invoked (wrap other t key failing T) \<and>
     returned (wrap other t key failing T) = Inl err \<and>
     store_after (wrap other t key failing T) = other"
proof -
  assume miss: "cached store key t1 = None" and p1: "producer1 () = Inr v"
    and s1: "store1 = store_after (wrap store t1 key producer1 T)"
    and within: "t2 - t1 < T" and after: "T < t3 - t1"
    and miss': "cached other key t = None" and bad: "failing () = Inl err"
  have first: "wrap store t1 key producer1 T =
      \<lparr>returned = Inr v,
       store_after = store(key \<mapsto> \<lparr>entry_value = v, storedAt = t1, ttlSeconds = T\<rparr>),
       invoked = True\<rparr>"
    using miss p1 by (simp add: wrap_def)
  then have st: "store1 = store(key \<mapsto> \<lparr>entry_value = v, storedAt = t1, ttlSeconds = T\<rparr>)"
    using s1 by simp
  have hit: "cached store1 key t2 = Some v"
    using st within by (simp add: cached_def unexpired_def)
  have second: "wrap store1 t2 key producer2 T =
      \<lparr>returned = Inr v, store_after = store1, invoked = False\<rparr>"
    using hit by (simp add: wrap_def)
  have gone: "cached store1 key t3 = None"
    using st after by (simp add: cached_def unexpired_def)
  have third: "invoked (wrap store1 t3 key producer3 T) \<and>
      returned (wrap store1 t3 key producer3 T) = producer3 ()"
    using gone by (cases "producer3 ()") (simp_all add: wrap_def)
  have fail: "wrap other t key failing T =
      \<lparr>returned = Inl err, store_after = other, invoked = True\<rparr>"
    using miss' bad by (simp add: wrap_def)
  from first second third fail show ?thesis by simp
qed

theorem wrap_ttl_witness:
  "\<not> invoked (distributions_x
        (store_after (distributions_x Map.empty 0 (\<lambda>_. Inr (7::nat)))) 86399 (\<lambda>_. Inr 8)) \<and>
   returned (distributions_x
        (store_after (distributions_x Map.empty 0 (\<lambda>_. Inr (7::nat)))) 86399 (\<lambda>_. Inr 8))
     = Inr 7 \<and>
   invoked (distributions_x
        (store_after (distributions_x Map.empty 0 (\<lambda>_. Inr (7::nat)))) 86401 (\<lambda>_. Inr 8)) \<and>
   returned (distributions_x
        (store_after (distributions_x Map.empty 0 (\<lambda>_. Inr (7::nat)))) 86401 (\<lambda>_. Inr 8))
     = Inr 8 \<and>
   returned (distributions_x Map.empty 0 (\<lambda>_. Inl (OtherError ''db'') :: error + nat))
     = Inl (OtherError ''db'') \<and>
   store_after (distributions_x Map.empty 0 (\<lambda>_. Inl (OtherError ''db'') :: error + nat))
     = Map.empty"
proof -
  let ?first = "wrap Map.empty 0 ''distributions_x'' (\<lambda>_. Inr (7::nat)) 86400"
  have miss: "cached (Map.empty :: nat cache_store) ''distributions_x'' 0 = None"
    by (simp add: cached_def)
  have p: "(\<lambda>_. Inr (7::nat) :: error + nat) () = Inr 7"
    and bad: "(\<lambda>_. Inl (OtherError ''db'') :: error + nat) () = Inl (OtherError ''db'')"
    by simp_all
  have t: "(86399::int) - 0 < 86400" "(86400::int) < 86401 - 0"
    by simp_all
  from wrap_ttl[OF miss p refl t miss bad, of "\<lambda>_. Inr 8" "\<lambda>_. Inr 8"]
  show ?thesis unfolding distributions_x_def by blast
qed

section \<open>Properties of the records endpoint\<close>























end
